theory Spec2Isabelle
  imports Complex_Main
begin

section \<open>The shader renderer of shadertoy-editor\<close>

text \<open>
  A shallow embedding of \<^verbatim>\<open>src/renderers/webgl-renderer.ts\<close>: the assembler
  \<^verbatim>\<open>createFragmentShader\<close> and the class \<^verbatim>\<open>WebGLRenderer\<close>.

  Conventions of the model.
  \<^item> A JavaScript \<^verbatim>\<open>number\<close> holding a time stamp or a coordinate is a \<^typ>\<open>real\<close>.
    The operations of the timeline come twice: with exact arithmetic, and (suffix
    \<open>_rnd\<close>) with every arithmetic result rounded, \<open>fl\<close> being the rounding of IEEE
    doubles; the second form is used where a property depends on the rounding. A
    \<^verbatim>\<open>number\<close> that only counts (\<^verbatim>\<open>frameCount\<close>, a line number) is an \<^typ>\<open>int\<close>.
  \<^item> A JavaScript string is a \<^typ>\<open>string\<close>; each \<^typ>\<open>char\<close> stands for one code unit
    below 256 (the GLSL compiler's log is ASCII).
  \<^item> Every call of \<^verbatim>\<open>performance.now()\<close> and \<^verbatim>\<open>new Date()\<close> is an argument of the
    operation that makes the call, in the order of the calls.
  \<^item> The answers of the WebGL implementation to one \<^verbatim>\<open>compile\<close> are an argument too.
  \<^item> A listener is known by its identity (a number); calling it is recorded in the
    field \<open>delivered\<close>. Listeners are assumed not to call back into the renderer.
\<close>

subsection \<open>Shader Program Assembler\<close>

definition NL :: char where
  "NL = CHR 0x0A"

definition VERTEX_SHADER :: string where
  "VERTEX_SHADER = concat (map (\<lambda>l. l @ [NL])
    [''#version 300 es'',
     ''precision highp float;'',
     '''',
     ''in vec2 a_position;'',
     ''out vec2 v_texCoord;'',
     '''',
     ''void main() {'',
     ''    v_texCoord = a_position * 0.5 + 0.5;'',
     ''    gl_Position = vec4(a_position, 0.0, 1.0);'',
     ''}''])"

text \<open>The lines of the template literal of \<^verbatim>\<open>createFragmentShader\<close> that come before
  \<^verbatim>\<open>${userCode}\<close>, each of them ended by a newline in the template.\<close>

definition preamble_lines :: "string list" where
  "preamble_lines =
    [''#version 300 es'',
     ''precision highp float;'',
     '''',
     ''// Shadertoy uniforms'',
     ''uniform vec3 iResolution;'',
     ''uniform float iTime;'',
     ''uniform float iTimeDelta;'',
     ''uniform int iFrame;'',
     ''uniform float iFrameRate;'',
     ''uniform vec4 iMouse;'',
     ''uniform vec4 iDate;'',
     ''uniform sampler2D iChannel0;'',
     ''uniform sampler2D iChannel1;'',
     ''uniform sampler2D iChannel2;'',
     ''uniform sampler2D iChannel3;'',
     ''uniform vec3 iChannelResolution[4];'',
     ''uniform float iChannelTime[4];'',
     '''',
     ''in vec2 v_texCoord;'',
     ''out vec4 outColor;'',
     '''',
     ''// User shader code'']"

definition preamble :: string where
  "preamble = concat (map (\<lambda>l. l @ [NL]) preamble_lines)"

text \<open>What the template holds after \<^verbatim>\<open>${userCode}\<close>.\<close>

definition epilogue :: string where
  "epilogue = concat (map (\<lambda>l. NL # l)
    ['''',
     ''void main() {'',
     ''    vec2 fragCoord = v_texCoord * iResolution.xy;'',
     ''    mainImage(outColor, fragCoord);'',
     ''}'']) @ [NL]"

definition createFragmentShader :: "string \<Rightarrow> string" where
  "createFragmentShader userCode = preamble @ userCode @ epilogue"

text \<open>The line on which the character at offset \<open>i\<close> of a source string stands, as GLSL ES
  3.00 numbers lines: one more than the number of newlines before it.\<close>

definition line_of :: "string \<Rightarrow> nat \<Rightarrow> nat" where
  "line_of src i = Suc (length (filter (\<lambda>c. c = NL) (take i src)))"

text \<open>The number of lines the preamble contributes before the first line of user code.\<close>

definition header_len :: nat where
  "header_len = length (filter (\<lambda>c. c = NL) preamble)"

subsection \<open>Diagnostic Translator\<close>

record compilation_error =
  line :: int
  message :: string

text \<open>\<^verbatim>\<open>errorLog.split('\n')\<close>: the pieces between newlines; never an empty list.\<close>

fun split_newline :: "string \<Rightarrow> string list" where
  "split_newline [] = [[]]"
| "split_newline (c # cs) =
     (if c = NL then [] # split_newline cs
      else (case split_newline cs of [] \<Rightarrow> [[c]] | l # ls \<Rightarrow> (c # l) # ls))"

text \<open>The regular expression \<^verbatim>\<open>/ERROR:\s*\d+:(\d+):\s*(.+)/\<close> is a sequence of literal
  characters and of greedy repetitions of a character class, two of them in capturing
  parentheses. \<open>Star\<close> is \<^verbatim>\<open>*\<close>, \<open>Plus\<close> is \<^verbatim>\<open>+\<close>; the flag says whether the
  repetition is captured.\<close>

datatype cls = Space | Digit | AnyChar

fun in_cls :: "cls \<Rightarrow> char \<Rightarrow> bool" where
  "in_cls Space c =
     (c \<in> set [CHR 0x09, CHR 0x0A, CHR 0x0B, CHR 0x0C, CHR 0x0D, CHR 0x20, CHR 0xA0])"
| "in_cls Digit c = (c \<in> set ''0123456789'')"
| "in_cls AnyChar c = (c \<notin> set [CHR 0x0A, CHR 0x0D])"

datatype atom = Lit char | Star bool cls | Plus bool cls

text \<open>A backtracking matcher, as \<^verbatim>\<open>String.prototype.match\<close> runs one: a repetition
  takes as many characters as it can and gives them back one by one while the rest of the
  pattern fails. The result is the list of the captured groups.\<close>

function match_here :: "atom list \<Rightarrow> string \<Rightarrow> string list option"
  and match_star :: "bool \<Rightarrow> cls \<Rightarrow> atom list \<Rightarrow> string \<Rightarrow> string \<Rightarrow> string list option"
where
  "match_here [] s = Some []"
| "match_here (Lit c # p) [] = None"
| "match_here (Lit c # p) (x # xs) = (if x = c then match_here p xs else None)"
| "match_here (Star cap k # p) s = match_star cap k p [] s"
| "match_here (Plus cap k # p) [] = None"
| "match_here (Plus cap k # p) (x # xs) =
     (if in_cls k x then match_star cap k p [x] xs else None)"
| "match_star cap k p acc [] =
     map_option (\<lambda>gs. if cap then acc # gs else gs) (match_here p [])"
| "match_star cap k p acc (x # xs) =
     (case (if in_cls k x then match_star cap k p (acc @ [x]) xs else None) of
        Some gs \<Rightarrow> Some gs
      | None \<Rightarrow> map_option (\<lambda>gs. if cap then acc # gs else gs) (match_here p (x # xs)))"
  by pat_completeness auto
termination
  by (relation "measures
        [\<lambda>a. case a of Inl (p, s) \<Rightarrow> 2 * length p | Inr (cap, k, p, acc, s) \<Rightarrow> 2 * length p + 1,
         \<lambda>a. case a of Inl (p, s) \<Rightarrow> length s | Inr (cap, k, p, acc, s) \<Rightarrow> length s]") auto

text \<open>The pattern is not anchored: the match is the one that starts leftmost.\<close>

fun search :: "atom list \<Rightarrow> string \<Rightarrow> string list option" where
  "search p [] = match_here p []"
| "search p (x # xs) =
     (case match_here p (x # xs) of Some gs \<Rightarrow> Some gs | None \<Rightarrow> search p xs)"

definition ERROR_REGEX :: "atom list" where
  "ERROR_REGEX = map Lit ''ERROR:'' @
     [Star False Space, Plus False Digit, Lit (CHR '':''), Plus True Digit, Lit (CHR '':''),
      Star False Space, Plus True AnyChar]"

text \<open>\<^verbatim>\<open>parseInt(match[1], 10)\<close>; the group is one digit or more, so the result is
  never NaN.\<close>

definition parseInt :: "string \<Rightarrow> int" where
  "parseInt ds = foldl (\<lambda>n c. 10 * n + (int (of_char c) - 48)) 0 ds"

definition trim :: "string \<Rightarrow> string" where
  "trim s = rev (dropWhile (in_cls Space) (rev (dropWhile (in_cls Space) s)))"

text \<open>The body of the loop of \<^verbatim>\<open>parseErrors\<close>, and the loop.\<close>

definition parse_line :: "compilation_error list \<Rightarrow> string \<Rightarrow> compilation_error list" where
  "parse_line errors l =
     (case search ERROR_REGEX l of
        Some [g1, g2] \<Rightarrow>
          (let lineNum = parseInt g1 - 16
           in errors @ [\<lparr>line = max 1 lineNum, message = trim g2\<rparr>])
      | _ \<Rightarrow> errors)"

definition parseErrors :: "string \<Rightarrow> compilation_error list" where
  "parseErrors errorLog = foldl parse_line [] (split_newline errorLog)"

subsection \<open>The renderer's data\<close>

text \<open>\<^verbatim>\<open>RendererState\<close> and \<^verbatim>\<open>RendererEvent\<close> of \<^verbatim>\<open>types.ts\<close>. The event's
  \<^verbatim>\<open>type\<close> tag and its optional payload are one constructor each.\<close>

record renderer_state =
  state_isPlaying :: bool
  time :: real
  frame :: int
  fps :: real

datatype renderer_event =
    CompileError "compilation_error list"
  | CompileSuccess
  | Frame renderer_state

type_synonym listener = nat

datatype shader_type = VERTEX | FRAGMENT

text \<open>The objects of the WebGL context that the renderer creates and deletes.\<close>

record gl_context =
  nextHandle :: nat
  vertexArrays :: "nat list"
  buffers :: "(nat \<times> real list) list"
  shaders :: "(nat \<times> shader_type \<times> string) list"
  programs :: "nat list"
  viewport :: "real \<times> real \<times> real \<times> real"

text \<open>One \<^verbatim>\<open>drawArrays\<close> call with the uniforms set before it.\<close>

record draw_call =
  usedProgram :: nat
  iResolution :: "real \<times> real \<times> real"
  iTime :: real
  iTimeDelta :: real
  iFrame :: int
  iFrameRate :: real
  iMouse :: "real \<times> real \<times> real \<times> real"
  iDate :: "real \<times> real \<times> real \<times> real"

text \<open>The fields of \<^verbatim>\<open>WebGLRenderer\<close> (with the canvas's size), then the host's side:
  the animation-frame callbacks waiting to run, the draw calls issued and the calls made
  to listeners.\<close>

record renderer =
  canvasWidth :: real
  canvasHeight :: real
  gl :: "gl_context option"
  program :: "nat option"
  vao :: "nat option"
  isPlaying :: bool
  startTime :: real
  pausedTime :: real
  lastFrameTime :: real
  frameCount :: int
  animationId :: "nat option"
  mouse :: "real \<times> real \<times> real \<times> real"
  isMouseDown :: bool
  eventListeners :: "listener list"
  rafNext :: nat
  rafPending :: "nat list"
  drawCalls :: "draw_call list"
  delivered :: "(listener \<times> renderer_event) list"

datatype error = WebGL2NotSupported

text \<open>\<^verbatim>\<open>initGL\<close>: the vertex array is handle 0, the buffer of the quad handle 1.\<close>

definition initGL :: gl_context where
  "initGL = \<lparr>nextHandle = 2, vertexArrays = [0],
     buffers = [(1, [-1, -1, 1, -1, -1, 1, 1, 1])], shaders = [], programs = [],
     viewport = (0, 0, 0, 0)\<rparr>"

text \<open>The fields as their initialisers and \<^verbatim>\<open>initGL\<close> leave them, for a canvas of
  the given size.\<close>

definition new_renderer :: "real \<Rightarrow> real \<Rightarrow> renderer" where
  "new_renderer w h =
     \<lparr>canvasWidth = w, canvasHeight = h, gl = Some initGL, program = None,
      vao = Some 0, isPlaying = False, startTime = 0, pausedTime = 0, lastFrameTime = 0,
      frameCount = 0, animationId = None, mouse = (0, 0, 0, 0), isMouseDown = False,
      eventListeners = [], rafNext = 0, rafPending = [], drawCalls = [],
      delivered = []\<rparr>"

text \<open>The constructor; \<open>webgl2\<close> says whether \<^verbatim>\<open>getContext('webgl2', ...)\<close> gives a
  context. Without one it throws.\<close>

definition WebGLRenderer :: "bool \<Rightarrow> real \<Rightarrow> real \<Rightarrow> error + renderer" where
  "WebGLRenderer webgl2 w h =
     (if \<not> webgl2 then Inl WebGL2NotSupported else Inr (new_renderer w h))"

subsection \<open>Event Channel\<close>

definition on :: "listener \<Rightarrow> renderer \<Rightarrow> renderer" where
  "on listener s = s\<lparr>eventListeners := eventListeners s @ [listener]\<rparr>"

text \<open>\<^verbatim>\<open>indexOf\<close> and \<^verbatim>\<open>splice(index, 1)\<close>: the first occurrence is removed.\<close>

definition off :: "listener \<Rightarrow> renderer \<Rightarrow> renderer" where
  "off listener s = s\<lparr>eventListeners := remove1 listener (eventListeners s)\<rparr>"

definition invoke :: "renderer_event \<Rightarrow> renderer \<Rightarrow> listener \<Rightarrow> renderer" where
  "invoke event s listener = s\<lparr>delivered := delivered s @ [(listener, event)]\<rparr>"

definition emit :: "renderer_event \<Rightarrow> renderer \<Rightarrow> renderer" where
  "emit event s = foldl (invoke event) s (eventListeners s)"

subsection \<open>Pointer tracking\<close>

record mouse_event =
  clientX :: real
  clientY :: real

record dom_rect =
  rect_left :: real
  rect_top :: real
  rect_width :: real
  rect_height :: real

definition mousedown :: "mouse_event \<Rightarrow> dom_rect \<Rightarrow> renderer \<Rightarrow> renderer" where
  "mousedown e rect s =
     (let s1 = s\<lparr>isMouseDown := True\<rparr>;
          x = clientX e - rect_left rect;
          y = rect_height rect - (clientY e - rect_top rect)
      in s1\<lparr>mouse := (x, y, x, y)\<rparr>)"

definition mousemove :: "mouse_event \<Rightarrow> dom_rect \<Rightarrow> renderer \<Rightarrow> renderer" where
  "mousemove e rect s =
     (if isMouseDown s then
        (let x = clientX e - rect_left rect;
             y = rect_height rect - (clientY e - rect_top rect)
         in case mouse s of (m0, m1, m2, m3) \<Rightarrow> s\<lparr>mouse := (x, y, m2, m3)\<rparr>)
      else s)"

definition mouseup :: "renderer \<Rightarrow> renderer" where
  "mouseup s =
     (let s1 = s\<lparr>isMouseDown := False\<rparr>
      in case mouse s1 of (m0, m1, m2, m3) \<Rightarrow> s1\<lparr>mouse := (m0, m1, - \<bar>m2\<bar>, - \<bar>m3\<bar>)\<rparr>)"

definition mouseleave :: "renderer \<Rightarrow> renderer" where
  "mouseleave s = s\<lparr>isMouseDown := False\<rparr>"

text \<open>The press point of an event in surface pixels, origin at the bottom left: the
  expression both handlers compute.\<close>

definition surface_position :: "mouse_event \<Rightarrow> dom_rect \<Rightarrow> real \<times> real" where
  "surface_position e rect =
     (clientX e - rect_left rect, rect_height rect - (clientY e - rect_top rect))"

text \<open>A run of \<^verbatim>\<open>mousemove\<close> events.\<close>

definition drag :: "(mouse_event \<times> dom_rect) list \<Rightarrow> renderer \<Rightarrow> renderer" where
  "drag moves s = foldl (\<lambda>st (e, rect). mousemove e rect st) s moves"

subsection \<open>Graphics Context Manager\<close>

text \<open>What the WebGL implementation answers during one \<^verbatim>\<open>compile\<close>: whether each
  object is created (not \<^verbatim>\<open>null\<close>), the compile and link status, and the fragment
  stage's info log (\<open>None\<close> is \<^verbatim>\<open>null\<close>).\<close>

record gl_answers =
  vsCreated :: bool
  vsCompiled :: bool
  fsCreated :: bool
  fsCompiled :: bool
  fsInfoLog :: "string option"
  programCreated :: bool
  linked :: bool

definition createShader :: "shader_type \<Rightarrow> string \<Rightarrow> gl_context \<Rightarrow> nat \<times> gl_context" where
  "createShader ty src g =
     (nextHandle g,
      g\<lparr>nextHandle := nextHandle g + 1, shaders := shaders g @ [(nextHandle g, ty, src)]\<rparr>)"

definition deleteShader :: "nat \<Rightarrow> gl_context \<Rightarrow> gl_context" where
  "deleteShader h g = g\<lparr>shaders := filter (\<lambda>e. fst e \<noteq> h) (shaders g)\<rparr>"

definition createProgram :: "gl_context \<Rightarrow> nat \<times> gl_context" where
  "createProgram g =
     (nextHandle g, g\<lparr>nextHandle := nextHandle g + 1, programs := programs g @ [nextHandle g]\<rparr>)"

definition deleteProgram :: "nat \<Rightarrow> gl_context \<Rightarrow> gl_context" where
  "deleteProgram h g = g\<lparr>programs := removeAll h (programs g)\<rparr>"

text \<open>\<^verbatim>\<open>compile\<close>, one branch for each \<^verbatim>\<open>return\<close> of the source. The messages
  written to the console are not represented.\<close>

definition compile :: "gl_answers \<Rightarrow> string \<Rightarrow> renderer \<Rightarrow> bool \<times> renderer" where
  "compile a shaderCode s =
     (case gl s of
        None \<Rightarrow> (False, s)
      | Some g0 \<Rightarrow>
          if \<not> vsCreated a then (False, s)
          else
            let (vs, g1) = createShader VERTEX VERTEX_SHADER g0 in
            if \<not> vsCompiled a then (False, s\<lparr>gl := Some (deleteShader vs g1)\<rparr>)
            else if \<not> fsCreated a then (False, s\<lparr>gl := Some (deleteShader vs g1)\<rparr>)
            else
              let fragmentSource = createFragmentShader shaderCode;
                  (fs, g2) = createShader FRAGMENT fragmentSource g1
              in
              if \<not> fsCompiled a then
                let error = (case fsInfoLog a of None \<Rightarrow> [] | Some l \<Rightarrow> l);
                    errors = parseErrors error;
                    s1 = emit (CompileError errors) (s\<lparr>gl := Some g2\<rparr>)
                in (False, s1\<lparr>gl := Some (deleteShader fs (deleteShader vs g2))\<rparr>)
              else if \<not> programCreated a then
                (False, s\<lparr>gl := Some (deleteShader fs (deleteShader vs g2))\<rparr>)
              else
                let (prog, g3) = createProgram g2 in
                if \<not> linked a then
                  (False,
                   s\<lparr>gl := Some (deleteShader fs (deleteShader vs (deleteProgram prog g3)))\<rparr>)
                else
                  let g4 = (case program s of
                              Some old \<Rightarrow> deleteProgram old g3
                            | None \<Rightarrow> g3);
                      s1 = s\<lparr>program := Some prog,
                             gl := Some (deleteShader fs (deleteShader vs g4))\<rparr>
                  in (True, emit CompileSuccess s1))"

definition resize :: "real \<Rightarrow> real \<Rightarrow> renderer \<Rightarrow> renderer" where
  "resize w h s =
     (let s1 = s\<lparr>canvasWidth := w, canvasHeight := h\<rparr>
      in case gl s1 of
           None \<Rightarrow> s1
         | Some g \<Rightarrow> s1\<lparr>gl := Some (g\<lparr>viewport := (0, 0, w, h)\<rparr>)\<rparr>)"

subsection \<open>Frame Clock and Uniform Feed\<close>

text \<open>The fields of a \<^verbatim>\<open>Date\<close> that \<^verbatim>\<open>renderFrame\<close> reads.\<close>

record js_date =
  fullYear :: int
  month :: int
  dayOfMonth :: int
  hours :: int
  minutes :: int
  seconds :: int
  milliseconds :: int

definition requestAnimationFrame :: "renderer \<Rightarrow> nat \<times> renderer" where
  "requestAnimationFrame s =
     (rafNext s, s\<lparr>rafNext := rafNext s + 1, rafPending := rafPending s @ [rafNext s]\<rparr>)"

definition cancelAnimationFrame :: "nat \<Rightarrow> renderer \<Rightarrow> renderer" where
  "cancelAnimationFrame h s = s\<lparr>rafPending := removeAll h (rafPending s)\<rparr>"

definition renderFrame :: "real \<Rightarrow> js_date \<Rightarrow> renderer \<Rightarrow> renderer" where
  "renderFrame now date s =
     (case (gl s, program s) of
        (Some g, Some p) \<Rightarrow>
          let time = (now - startTime s) / 1000;
              timeDelta = (now - lastFrameTime s) / 1000;
              fps = (if timeDelta > 0 then 1 / timeDelta else 60);
              s1 = s\<lparr>lastFrameTime := now\<rparr>;
              dateSeconds = real_of_int (hours date * 3600 + minutes date * 60 + seconds date)
                            + real_of_int (milliseconds date) / 1000;
              s2 = s1\<lparr>drawCalls := drawCalls s1 @
                     [\<lparr>usedProgram = p,
                       iResolution = (canvasWidth s1, canvasHeight s1, 1),
                       iTime = time,
                       iTimeDelta = timeDelta,
                       iFrame = frameCount s1,
                       iFrameRate = fps,
                       iMouse = mouse s1,
                       iDate = (real_of_int (fullYear date), real_of_int (month date),
                                real_of_int (dayOfMonth date), dateSeconds)\<rparr>]\<rparr>;
              s3 = s2\<lparr>frameCount := frameCount s2 + 1\<rparr>
          in emit (Frame \<lparr>state_isPlaying = isPlaying s3, time = time,
                          frame = frameCount s3, fps = fps\<rparr>) s3
      | _ \<Rightarrow> s)"

text \<open>The arrow function \<^verbatim>\<open>render\<close>, which is also the animation-frame callback.\<close>

definition render :: "real \<Rightarrow> js_date \<Rightarrow> renderer \<Rightarrow> renderer" where
  "render now date s =
     (if \<not> isPlaying s then s
      else
        let s1 = renderFrame now date s;
            (h, s2) = requestAnimationFrame s1
        in s2\<lparr>animationId := Some h\<rparr>)"

text \<open>\<open>t1\<close> and \<open>t2\<close> are the clock read for \<^verbatim>\<open>startTime\<close> and for
  \<^verbatim>\<open>lastFrameTime\<close>; \<open>t3\<close> and \<open>date\<close> are read by the frame rendered at once.\<close>

definition play :: "real \<Rightarrow> real \<Rightarrow> real \<Rightarrow> js_date \<Rightarrow> renderer \<Rightarrow> renderer" where
  "play t1 t2 t3 date s =
     (if isPlaying s then s
      else
        let s1 = s\<lparr>isPlaying := True\<rparr>;
            s2 = (if pausedTime s1 > 0 then s1\<lparr>startTime := t1 - pausedTime s1\<rparr>
                  else s1\<lparr>startTime := t1\<rparr>);
            s3 = s2\<lparr>lastFrameTime := t2\<rparr>
        in render t3 date s3)"

definition pause :: "real \<Rightarrow> renderer \<Rightarrow> renderer" where
  "pause t s =
     (let s1 = s\<lparr>isPlaying := False\<rparr>;
          s2 = s1\<lparr>pausedTime := t - startTime s1\<rparr>
      in case animationId s2 of
           None \<Rightarrow> s2
         | Some h \<Rightarrow> (cancelAnimationFrame h s2)\<lparr>animationId := None\<rparr>)"

definition restart :: "real \<Rightarrow> real \<Rightarrow> real \<Rightarrow> js_date \<Rightarrow> renderer \<Rightarrow> renderer" where
  "restart t1 t2 t3 date s =
     (let s1 = s\<lparr>startTime := t1\<rparr>;
          s2 = s1\<lparr>pausedTime := 0\<rparr>;
          s3 = s2\<lparr>frameCount := 0\<rparr>;
          s4 = s3\<lparr>lastFrameTime := t2\<rparr>
      in if \<not> isPlaying s4 then renderFrame t3 date s4 else s4)"

definition getState :: "real \<Rightarrow> renderer \<Rightarrow> renderer_state" where
  "getState t s =
     (let time = (if isPlaying s then (t - startTime s) / 1000 else pausedTime s / 1000)
      in \<lparr>state_isPlaying = isPlaying s, time = time, frame = frameCount s, fps = 0\<rparr>)"

definition dispose :: "real \<Rightarrow> renderer \<Rightarrow> renderer" where
  "dispose t s =
     (let s1 = pause t s
      in case (gl s1, program s1) of
           (Some g, Some p) \<Rightarrow> s1\<lparr>gl := Some (deleteProgram p g)\<rparr>
         | _ \<Rightarrow> s1)"

text \<open>The host runs a waiting animation-frame callback: it leaves the queue and
  \<^verbatim>\<open>render\<close> runs. A handle that is not waiting runs nothing.\<close>

definition frame_callback :: "nat \<Rightarrow> real \<Rightarrow> js_date \<Rightarrow> renderer \<Rightarrow> renderer" where
  "frame_callback h now date s =
     (if h \<in> set (rafPending s) then render now date (s\<lparr>rafPending := removeAll h (rafPending s)\<rparr>)
      else s)"

subsection \<open>The timeline in double arithmetic\<close>

text \<open>Rounding to the nearest integer, ties to the even one.\<close>

definition round_even :: "real \<Rightarrow> int" where
  "round_even x =
     (let f = \<lfloor>x\<rfloor>; r = x - of_int f
      in if r < 1 / 2 then f else if 1 / 2 < r then f + 1 else if even f then f else f + 1)"

text \<open>The binary exponent of a positive number: \<open>2 powi expo x \<le> x < 2 powi (expo x + 1)\<close>.\<close>

function expo :: "real \<Rightarrow> int" where
  "expo x = (if x \<le> 0 then 0 else if 2 \<le> x then expo (x / 2) + 1
             else if x < 1 then expo (2 * x) - 1 else 0)"
  by pat_completeness auto
termination
proof (relation "measure (\<lambda>x. nat \<bar>\<lfloor>log 2 x\<rfloor>\<bar>)")
  show "wf (measure (\<lambda>x. nat \<bar>\<lfloor>log 2 x\<rfloor>\<bar>))" by simp
next
  fix x :: real
  assume "\<not> x \<le> 0" and big: "2 \<le> x"
  hence "log 2 (x / 2) = log 2 x - 1" by (simp add: log_divide)
  moreover have "1 \<le> log 2 x" using big by (simp add: le_log_iff)
  ultimately show "(x / 2, x) \<in> measure (\<lambda>x. nat \<bar>\<lfloor>log 2 x\<rfloor>\<bar>)"
    by simp
next
  fix x :: real
  assume pos: "\<not> x \<le> 0" and "\<not> 2 \<le> x" and small: "x < 1"
  hence "log 2 (2 * x) = 1 + log 2 x" by (simp add: log_mult)
  hence up: "\<lfloor>log 2 (2 * x)\<rfloor> = \<lfloor>log 2 x\<rfloor> + 1" by simp
  have "log 2 x < 0" using pos small by simp
  hence neg: "\<lfloor>log 2 x\<rfloor> \<le> - 1" by (simp add: floor_le_iff)
  show "(2 * x, x) \<in> measure (\<lambda>x. nat \<bar>\<lfloor>log 2 x\<rfloor>\<bar>)"
    unfolding in_measure up using neg by linarith
qed

declare expo.simps [simp del]

text \<open>Rounding to the nearest number with a significand of 53 bits, ties to even: the
  rounding of every arithmetic operation on IEEE 754 doubles, for results of magnitude from
  \<open>2 powi (-1022)\<close> up to \<open>2 powi 1024\<close> (no subnormal numbers, no overflow, no NaN: no
  time stamp in milliseconds is outside this range).\<close>

definition fl :: "real \<Rightarrow> real" where
  "fl x = (if x = 0 then 0
           else let u = 2 powi (expo \<bar>x\<bar> - 52)
                in sgn x * (of_int (round_even (\<bar>x\<bar> / u)) * u))"

text \<open>The operations of the timeline once more, now with the result of every subtraction
  and division passed through a rounding function \<open>rnd\<close>, as JavaScript rounds it to a
  double. The sums of the whole numbers of a date are exact. With the identity for \<open>rnd\<close>
  these are the definitions above.\<close>

definition renderFrame_rnd :: "(real \<Rightarrow> real) \<Rightarrow> real \<Rightarrow> js_date \<Rightarrow> renderer \<Rightarrow> renderer" where
  "renderFrame_rnd rnd now date s =
     (case (gl s, program s) of
        (Some g, Some p) \<Rightarrow>
          let time = rnd (rnd (now - startTime s) / 1000);
              timeDelta = rnd (rnd (now - lastFrameTime s) / 1000);
              fps = (if timeDelta > 0 then rnd (1 / timeDelta) else 60);
              s1 = s\<lparr>lastFrameTime := now\<rparr>;
              dateSeconds = rnd (real_of_int (hours date * 3600 + minutes date * 60 + seconds date)
                            + rnd (real_of_int (milliseconds date) / 1000));
              s2 = s1\<lparr>drawCalls := drawCalls s1 @
                     [\<lparr>usedProgram = p,
                       iResolution = (canvasWidth s1, canvasHeight s1, 1),
                       iTime = time,
                       iTimeDelta = timeDelta,
                       iFrame = frameCount s1,
                       iFrameRate = fps,
                       iMouse = mouse s1,
                       iDate = (real_of_int (fullYear date), real_of_int (month date),
                                real_of_int (dayOfMonth date), dateSeconds)\<rparr>]\<rparr>;
              s3 = s2\<lparr>frameCount := frameCount s2 + 1\<rparr>
          in emit (Frame \<lparr>state_isPlaying = isPlaying s3, time = time,
                          frame = frameCount s3, fps = fps\<rparr>) s3
      | _ \<Rightarrow> s)"

definition render_rnd :: "(real \<Rightarrow> real) \<Rightarrow> real \<Rightarrow> js_date \<Rightarrow> renderer \<Rightarrow> renderer" where
  "render_rnd rnd now date s =
     (if \<not> isPlaying s then s
      else
        let s1 = renderFrame_rnd rnd now date s;
            (h, s2) = requestAnimationFrame s1
        in s2\<lparr>animationId := Some h\<rparr>)"

definition play_rnd ::
  "(real \<Rightarrow> real) \<Rightarrow> real \<Rightarrow> real \<Rightarrow> real \<Rightarrow> js_date \<Rightarrow> renderer \<Rightarrow> renderer" where
  "play_rnd rnd t1 t2 t3 date s =
     (if isPlaying s then s
      else
        let s1 = s\<lparr>isPlaying := True\<rparr>;
            s2 = (if pausedTime s1 > 0 then s1\<lparr>startTime := rnd (t1 - pausedTime s1)\<rparr>
                  else s1\<lparr>startTime := t1\<rparr>);
            s3 = s2\<lparr>lastFrameTime := t2\<rparr>
        in render_rnd rnd t3 date s3)"

definition pause_rnd :: "(real \<Rightarrow> real) \<Rightarrow> real \<Rightarrow> renderer \<Rightarrow> renderer" where
  "pause_rnd rnd t s =
     (let s1 = s\<lparr>isPlaying := False\<rparr>;
          s2 = s1\<lparr>pausedTime := rnd (t - startTime s1)\<rparr>
      in case animationId s2 of
           None \<Rightarrow> s2
         | Some h \<Rightarrow> (cancelAnimationFrame h s2)\<lparr>animationId := None\<rparr>)"

definition getState_rnd :: "(real \<Rightarrow> real) \<Rightarrow> real \<Rightarrow> renderer \<Rightarrow> renderer_state" where
  "getState_rnd rnd t s =
     (let time = (if isPlaying s then rnd (rnd (t - startTime s) / 1000)
                  else rnd (pausedTime s / 1000))
      in \<lparr>state_isPlaying = isPlaying s, time = time, frame = frameCount s, fps = 0\<rparr>)"

subsection \<open>Steps\<close>

text \<open>The steps of the timeline.\<close>

datatype action =
    Play real real real js_date
  | Pause real
  | Restart real real real js_date
  | Tick nat real js_date

fun step :: "action \<Rightarrow> renderer \<Rightarrow> renderer" where
  "step (Play t1 t2 t3 date) s = play t1 t2 t3 date s"
| "step (Pause t) s = pause t s"
| "step (Restart t1 t2 t3 date) s = restart t1 t2 t3 date s"
| "step (Tick h now date) s = frame_callback h now date s"

fun is_restart :: "action \<Rightarrow> bool" where
  "is_restart (Restart t1 t2 t3 date) = True"
| "is_restart a = False"

text \<open>The number of frames drawn between two states.\<close>

definition rendered :: "renderer \<Rightarrow> renderer \<Rightarrow> int" where
  "rendered s s' = int (length (drawCalls s')) - int (length (drawCalls s))"

text \<open>The clock readings a step makes, in order, and the relation of the timeline to a
  clock reading \<open>now\<close>: the logical start is not in the future and the paused baseline is
  not negative.\<close>

fun reads :: "action \<Rightarrow> real list" where
  "reads (Play t1 t2 t3 date) = [t1, t2, t3]"
| "reads (Pause t) = [t]"
| "reads (Restart t1 t2 t3 date) = [t1, t2, t3]"
| "reads (Tick h now date) = [now]"

definition clock_ok :: "real \<Rightarrow> renderer \<Rightarrow> bool" where
  "clock_ok now s = (startTime s \<le> now \<and> 0 \<le> pausedTime s)"

subsection \<open>Example values\<close>

definition noon :: js_date where
  "noon = \<lparr>fullYear = 2026, month = 0, dayOfMonth = 1, hours = 12, minutes = 0, seconds = 0,
     milliseconds = 0\<rparr>"

definition all_ok :: gl_answers where
  "all_ok = \<lparr>vsCreated = True, vsCompiled = True, fsCreated = True, fsCompiled = True,
     fsInfoLog = None, programCreated = True, linked = True\<rparr>"

text \<open>A renderer as the constructor leaves it (Paused, nothing compiled).\<close>

definition fresh :: renderer where
  "fresh = new_renderer 300 150"

text \<open>The same renderer with one listener, after a first successful \<^verbatim>\<open>compile\<close>.\<close>

definition ready :: renderer where
  "ready = snd (compile all_ok ''void mainImage(out vec4 c, in vec2 p) { c = vec4(1.0); }''
                  (on 7 fresh))"


definition box :: dom_rect where
  "box = \<lparr>rect_left = 0, rect_top = 0, rect_width = 300, rect_height = 150\<rparr>"

text \<open>A fragment stage that does not compile, with the log of the compiler.\<close>

definition fragment_fails :: gl_answers where
  "fragment_fails = all_ok\<lparr>fsCompiled := False, fsInfoLog := Some ''ERROR: 0:23: syntax error''\<rparr>"

text \<open>\<open>ready\<close> after \<^verbatim>\<open>play()\<close> at time 1000.\<close>

definition playing :: renderer where
  "playing = play 1000 1000 1000 noon ready"

text \<open>\<open>ready\<close> after \<^verbatim>\<open>play()\<close> at the double nearest to 0.1, in double arithmetic.\<close>

definition playing_fl :: renderer where
  "playing_fl = play_rnd fl (fl (1 / 10)) (fl (1 / 10)) (fl (1 / 10)) noon ready"

section \<open>Properties\<close>

subsection \<open>Auxiliary facts\<close>

lemma emit_eq:
  "emit ev s = s\<lparr>delivered := delivered s @ map (\<lambda>l. (l, ev)) (eventListeners s)\<rparr>"
proof -
  have "foldl (invoke ev) s' ls = s'\<lparr>delivered := delivered s' @ map (\<lambda>l. (l, ev)) ls\<rparr>"
    for ls s'
    by (induction ls arbitrary: s') (simp_all add: invoke_def)
  thus ?thesis by (simp add: emit_def)
qed

lemmas clock_defs = play_def pause_def restart_def render_def renderFrame_def getState_def
  requestAnimationFrame_def cancelAnimationFrame_def frame_callback_def emit_eq Let_def

lemma render_fields:
  "startTime (render now date s) = startTime s"
  "pausedTime (render now date s) = pausedTime s"
  "isPlaying (render now date s) = isPlaying s"
  by (simp_all add: render_def renderFrame_def requestAnimationFrame_def emit_eq Let_def
        split: option.splits prod.splits)

lemma renderFrame_fields:
  "startTime (renderFrame now date s) = startTime s"
  "pausedTime (renderFrame now date s) = pausedTime s"
  "isPlaying (renderFrame now date s) = isPlaying s"
  by (simp_all add: renderFrame_def emit_eq Let_def split: option.splits prod.splits)

lemma pause_fields:
  "startTime (pause t s) = startTime s"
  "pausedTime (pause t s) = t - startTime s"
  "\<not> isPlaying (pause t s)"
  by (simp_all add: pause_def cancelAnimationFrame_def Let_def split: option.splits)

lemma play_fields:
  "\<not> isPlaying s \<Longrightarrow> isPlaying (play t1 t2 t3 date s)"
  "\<not> isPlaying s \<Longrightarrow> startTime (play t1 t2 t3 date s) =
      (if pausedTime s > 0 then t1 - pausedTime s else t1)"
  by (simp_all add: play_def render_fields Let_def)

text \<open>With a clock that never runs backwards, the logical start time is never ahead of
  the clock: true of a new renderer and kept by every step.\<close>

lemma clock_ok_new: "0 \<le> now \<Longrightarrow> clock_ok now (new_renderer w h)"
  by (simp add: clock_ok_def new_renderer_def)

lemma clock_ok_step:
  assumes "clock_ok now s" and "sorted (now # reads a)"
  shows "clock_ok (last (reads a)) (step a s)"
proof (cases a)
  case (Play t1 t2 t3 date)
  then show ?thesis using assms
    by (cases "isPlaying s") (auto simp: clock_ok_def play_def render_fields Let_def)
next
  case (Pause t)
  then show ?thesis using assms by (auto simp: clock_ok_def pause_fields)
next
  case (Restart t1 t2 t3 date)
  then show ?thesis using assms
    by (auto simp: clock_ok_def restart_def renderFrame_fields Let_def)
next
  case (Tick h now' date)
  then show ?thesis using assms
    by (auto simp: clock_ok_def frame_callback_def render_fields)
qed

text \<open>The exact operations are the rounded ones with nothing rounded.\<close>

lemma exact_instance:
  "renderFrame_rnd (\<lambda>x. x) = renderFrame"
  "render_rnd (\<lambda>x. x) = render"
  "play_rnd (\<lambda>x. x) = play"
  "pause_rnd (\<lambda>x. x) = pause"
  "getState_rnd (\<lambda>x. x) = getState"
proof -
  show 1: "renderFrame_rnd (\<lambda>x. x) = renderFrame"
    by (intro ext) (simp add: renderFrame_rnd_def renderFrame_def)
  show 2: "render_rnd (\<lambda>x. x) = render"
    by (intro ext) (simp add: render_rnd_def render_def 1)
  show "play_rnd (\<lambda>x. x) = play"
    by (intro ext) (simp add: play_rnd_def play_def 2)
  show "pause_rnd (\<lambda>x. x) = pause"
    by (intro ext) (simp add: pause_rnd_def pause_def)
  show "getState_rnd (\<lambda>x. x) = getState"
    by (intro ext) (simp add: getState_rnd_def getState_def)
qed

text \<open>\<open>fl\<close> has a relative error of at most \<open>1 / 2 ^ 53\<close>.\<close>

lemma expo_bounds: "0 < x \<Longrightarrow> 2 powi expo x \<le> x \<and> x < 2 powi (expo x + 1)"
proof (induction x rule: expo.induct)
  case (1 x)
  show ?case
  proof (cases "2 \<le> x")
    case True
    with "1.prems" have e: "expo x = expo (x / 2) + 1" by (subst expo.simps) simp
    from "1.IH"(1) True "1.prems"
    have "2 powi expo (x / 2) \<le> x / 2 \<and> x / 2 < 2 powi (expo (x / 2) + 1)" by simp
    moreover have "(2::real) powi (expo (x / 2) + 1 + 1) = 2 powi (expo (x / 2) + 1) * 2"
      by (rule power_int_add_1) simp
    moreover have "(2::real) powi (expo (x / 2) + 1) = 2 powi expo (x / 2) * 2"
      by (rule power_int_add_1) simp
    ultimately show ?thesis unfolding e by linarith
  next
    case False
    show ?thesis
    proof (cases "x < 1")
      case True
      with False "1.prems" have e: "expo x = expo (2 * x) - 1" by (subst expo.simps) simp
      from "1.IH"(2) True False "1.prems"
      have "2 powi expo (2 * x) \<le> 2 * x \<and> 2 * x < 2 powi (expo (2 * x) + 1)" by simp
      moreover have "(2::real) powi expo (2 * x) = 2 powi (expo (2 * x) - 1) * 2"
        using power_int_add_1[of "2::real" "expo (2 * x) - 1"] by simp
      moreover have "(2::real) powi (expo (2 * x) + 1) = 2 powi expo (2 * x) * 2"
        by (rule power_int_add_1) simp
      ultimately have "2 powi (expo (2 * x) - 1) \<le> x \<and> x < 2 powi expo (2 * x)"
        by linarith
      thus ?thesis by (simp add: e)
    next
      case False
      with \<open>\<not> 2 \<le> x\<close> "1.prems" have e: "expo x = 0" by (subst expo.simps) simp
      show ?thesis using False \<open>\<not> 2 \<le> x\<close> by (simp add: e)
    qed
  qed
qed

lemma round_even_error: "\<bar>of_int (round_even x) - x\<bar> \<le> 1 / 2"
  by (simp add: round_even_def Let_def)

lemma fl_error: "\<bar>fl x - x\<bar> \<le> (1 / 2 ^ 53) * \<bar>x\<bar>"
proof (cases "x = 0")
  case True
  then show ?thesis by (simp add: fl_def)
next
  case False
  define y where "y = \<bar>x\<bar>"
  define u :: real where "u = 2 powi (expo y - 52)"
  define q where "q = y / u"
  have y: "0 < y" using False by (simp add: y_def)
  have u: "0 < u" by (simp add: u_def)
  have x: "x = sgn x * (q * u)"
    using u by (simp add: q_def y_def sgn_real_def)
  have f: "fl x = sgn x * (of_int (round_even q) * u)"
    using False by (simp add: fl_def Let_def u_def q_def y_def)
  have "fl x - x = sgn x * ((of_int (round_even q) - q) * u)"
    by (subst (2) x) (simp add: f algebra_simps)
  hence "\<bar>fl x - x\<bar> = \<bar>of_int (round_even q) - q\<bar> * u"
    using False u by (simp add: abs_mult sgn_real_def)
  also have "\<dots> \<le> (1 / 2) * u"
    using round_even_error[of q] u by (intro mult_right_mono) simp_all
  also have "(1 / 2) * u = (1 / 2 ^ 53) * 2 powi expo y"
  proof -
    have "(2::real) powi (expo y - 52) = 2 powi expo y / 2 powi 52"
      by (simp add: power_int_diff)
    thus ?thesis by (simp add: u_def)
  qed
  also have "\<dots> \<le> (1 / 2 ^ 53) * y"
    using expo_bounds[OF y] by (intro mult_left_mono) simp_all
  finally show ?thesis by (simp add: y_def)
qed


text \<open>Two values of \<open>fl\<close>: the double nearest to 0.1, and a tie that goes to the even
  neighbour.\<close>

lemma fl_examples:
  "fl (1 / 10) = 3602879701896397 / 36028797018963968"
  "fl (2 ^ 53 + 1) = 2 ^ 53"
  "fl (2 ^ 53 + 3) = 2 ^ 53 + 4"
  by (simp_all add: fl_def expo.simps round_even_def Let_def power_int_def power_one_over)

lemma render_rnd_fields:
  "startTime (render_rnd rnd now date s) = startTime s"
  "pausedTime (render_rnd rnd now date s) = pausedTime s"
  "isPlaying (render_rnd rnd now date s) = isPlaying s"
  by (simp_all add: render_rnd_def renderFrame_rnd_def requestAnimationFrame_def emit_eq Let_def
        split: option.splits prod.splits)

lemma pause_rnd_fields:
  "startTime (pause_rnd rnd t s) = startTime s"
  "pausedTime (pause_rnd rnd t s) = rnd (t - startTime s)"
  "\<not> isPlaying (pause_rnd rnd t s)"
  by (simp_all add: pause_rnd_def cancelAnimationFrame_def Let_def split: option.splits)

lemma play_rnd_fields:
  "\<not> isPlaying s \<Longrightarrow> isPlaying (play_rnd rnd t1 t2 t3 date s)"
  "\<not> isPlaying s \<Longrightarrow> startTime (play_rnd rnd t1 t2 t3 date s) =
      (if pausedTime s > 0 then rnd (t1 - pausedTime s) else t1)"
  by (simp_all add: play_rnd_def render_rnd_fields Let_def)

text \<open>The two elapsed times of the claim, as the code computes them.\<close>

lemma elapsed_at_pause:
  "isPlaying s \<Longrightarrow>
     time (getState_rnd rnd t_pause s) = rnd (rnd (t_pause - startTime s) / 1000)"
  by (simp add: getState_rnd_def)

lemma elapsed_at_resume:
  "time (getState_rnd rnd t (play_rnd rnd t_resume t2 t3 date (pause_rnd rnd t_pause s)))
     = rnd (rnd (t - (if 0 < rnd (t_pause - startTime s)
                      then rnd (t_resume - rnd (t_pause - startTime s))
                      else t_resume)) / 1000)"
  by (simp add: getState_rnd_def play_rnd_fields pause_rnd_fields)

text \<open>The error of the four roundings between the paused baseline \<open>p\<close> and the elapsed
  time reported after the resume at \<open>t\<close>.\<close>

lemma rounding_chain:
  fixes rnd :: "real \<Rightarrow> real"
  assumes rnd: "\<And>x. \<bar>rnd x - x\<bar> \<le> \<epsilon> * \<bar>x\<bar>" and eps: "\<epsilon> \<le> 1" and p: "0 \<le> p"
  shows "\<bar>rnd (rnd (t - rnd (t - p)) / 1000) - rnd (p / 1000)\<bar>
           \<le> 4 * \<epsilon> * (p + \<bar>t - p\<bar>) / 1000"
proof -
  have eps0: "0 \<le> \<epsilon>" using rnd[of 1] by simp
  define a where "a = t - p"
  define s1 where "s1 = rnd a"
  define b where "b = t - s1"
  define e where "e = rnd b"
  define A where "A = \<epsilon> * \<bar>a\<bar>"
  define B where "B = \<epsilon> * \<bar>b\<bar>"
  define E where "E = \<epsilon> * \<bar>e\<bar>"
  define P where "P = \<epsilon> * p"
  have A0: "0 \<le> A" and B0: "0 \<le> B" and P0: "0 \<le> P"
    using eps0 p by (simp_all add: A_def B_def P_def)
  have 1: "\<bar>s1 - a\<bar> \<le> A" unfolding s1_def A_def by (rule rnd)
  have 2: "\<bar>e - b\<bar> \<le> B" unfolding e_def B_def by (rule rnd)
  have bp: "\<bar>b\<bar> \<le> p + A" using 1 p unfolding b_def a_def by linarith
  have "B \<le> \<epsilon> * (p + A)" unfolding B_def using bp eps0 by (rule mult_left_mono)
  also have "\<dots> = P + \<epsilon> * A" by (simp add: P_def algebra_simps)
  also have "\<dots> \<le> P + A" using mult_left_le_one_le[OF A0 eps0 eps] by simp
  finally have B: "B \<le> P + A" .
  have ea: "\<bar>e\<bar> \<le> p + A + B" using 2 bp by linarith
  have "E \<le> \<epsilon> * (p + A + B)" unfolding E_def using ea eps0 by (rule mult_left_mono)
  also have "\<dots> = P + \<epsilon> * (A + B)" by (simp add: P_def algebra_simps)
  also have "\<dots> \<le> P + (A + B)"
    using mult_left_le_one_le[OF _ eps0 eps, of "A + B"] A0 B0 by simp
  finally have E: "E \<le> P + A + B" by simp
  have ep: "\<bar>e - p\<bar> \<le> A + B" using 1 2 unfolding b_def a_def by linarith
  have 3: "\<bar>rnd (e / 1000) - e / 1000\<bar> \<le> E / 1000"
    using rnd[of "e / 1000"] by (simp add: E_def)
  have 4: "\<bar>rnd (p / 1000) - p / 1000\<bar> \<le> P / 1000"
    using rnd[of "p / 1000"] p by (simp add: P_def)
  have "\<bar>rnd (e / 1000) - rnd (p / 1000)\<bar> \<le> (E + (A + B) + P) / 1000"
  proof -
    have "\<bar>e / 1000 - p / 1000\<bar> \<le> (A + B) / 1000"
      using ep by (simp add: diff_divide_distrib[symmetric])
    hence "\<bar>rnd (e / 1000) - rnd (p / 1000)\<bar> \<le> E / 1000 + (A + B) / 1000 + P / 1000"
      using 3 4 by linarith
    thus ?thesis by (simp add: add_divide_distrib)
  qed
  also have "\<dots> \<le> (4 * P + 4 * A) / 1000"
    using E B by simp
  also have "\<dots> = 4 * \<epsilon> * (p + \<bar>t - p\<bar>) / 1000"
    by (simp add: P_def A_def a_def algebra_simps)
  finally show ?thesis by (simp add: e_def b_def s1_def a_def)
qed

lemma mousemove_pressed:
  assumes "isMouseDown s" and "mouse s = (m0, m1, m2, m3)"
  shows "isMouseDown (mousemove e rect s)"
    and "mouse (mousemove e rect s) =
           (fst (surface_position e rect), snd (surface_position e rect), m2, m3)"
  using assms by (simp_all add: mousemove_def surface_position_def Let_def)

lemma drag_pressed:
  assumes "isMouseDown s" and "mouse s = (m0, m1, m2, m3)"
  shows "isMouseDown (drag moves s) \<and>
         mouse (drag moves s) =
           (fst (if moves = [] then (m0, m1)
                 else surface_position (fst (last moves)) (snd (last moves))),
            snd (if moves = [] then (m0, m1)
                 else surface_position (fst (last moves)) (snd (last moves))),
            m2, m3)"
proof (induction moves rule: rev_induct)
  case Nil
  show ?case using assms by (simp add: drag_def)
next
  case (snoc m moves)
  obtain e rect where m: "m = (e, rect)" by (cases m)
  have step: "drag (moves @ [(e, rect)]) s = mousemove e rect (drag moves s)"
    by (simp add: drag_def)
  from snoc.IH obtain a b where down: "isMouseDown (drag moves s)"
    and at: "mouse (drag moves s) = (a, b, m2, m3)"
    by blast
  show ?case
    using mousemove_pressed[OF down at, of e rect] by (simp add: step m)
qed

text \<open>The preamble has 22 lines, and a character of the user's code stands that many
  lines further down in the assembled source than in the user's text.\<close>

lemma header_len_22: "header_len = 22"
  by (simp add: header_len_def preamble_def preamble_lines_def NL_def)

lemma line_of_user_code:
  "i \<le> length userCode \<Longrightarrow>
     line_of (createFragmentShader userCode) (length preamble + i)
       = header_len + line_of userCode i"
  by (simp add: line_of_def createFragmentShader_def header_len_def)

text \<open>The matcher on a diagnostic of the expected form: a repetition that is followed by
  a character outside its class, and by a text the rest of the pattern matches, takes the
  whole run.\<close>

lemma match_star_all:
  assumes "\<forall>c \<in> set xs. in_cls k c" and "rest = [] \<or> \<not> in_cls k (hd rest)"
    and "match_here p rest = Some gs"
  shows "match_star cap k p acc (xs @ rest) = Some (if cap then (acc @ xs) # gs else gs)"
  using assms
proof (induction xs arbitrary: acc)
  case Nil
  then show ?case by (cases rest) auto
next
  case (Cons x xs)
  then show ?case by simp
qed

lemma match_plus_all:
  assumes "xs \<noteq> []" and "\<forall>c \<in> set xs. in_cls k c" and "rest = [] \<or> \<not> in_cls k (hd rest)"
    and "match_here p rest = Some gs"
  shows "match_here (Plus cap k # p) (xs @ rest) = Some (if cap then xs # gs else gs)"
proof -
  from assms(1) obtain x xs' where xs: "xs = x # xs'" by (cases xs) auto
  have "match_star cap k p [x] (xs' @ rest) = Some (if cap then ([x] @ xs') # gs else gs)"
    using assms by (intro match_star_all) (auto simp: xs)
  thus ?thesis using assms(2) by (simp add: xs)
qed

lemma split_newline_single: "NL \<notin> set l \<Longrightarrow> split_newline l = [l]"
  by (induction l) auto

lemma error_regex_match:
  assumes ids: "ids \<noteq> []" "\<forall>c\<in>set ids. in_cls Digit c"
      and ds: "ds \<noteq> []" "\<forall>c\<in>set ds. in_cls Digit c"
      and msg: "msg \<noteq> []" "\<not> in_cls Space (hd msg)" "\<forall>c\<in>set msg. in_cls AnyChar c"
  shows "match_here ERROR_REGEX (''ERROR: '' @ ids @ '':'' @ ds @ '': '' @ msg) = Some [ds, msg]"
proof -
  have g2: "match_here [Plus True AnyChar] (msg @ []) = Some [msg]"
    using msg by (subst match_plus_all[where gs="[]"]) auto
  have sp2: "match_here [Star False Space, Plus True AnyChar] ('' '' @ msg) = Some [msg]"
    using msg g2 match_star_all[of "'' ''" Space msg "[Plus True AnyChar]" "[msg]" False "[]"]
    by simp
  have c2: "match_here [Lit (CHR '':''), Star False Space, Plus True AnyChar] ('': '' @ msg) = Some [msg]"
    using sp2 by simp
  have g1: "match_here [Plus True Digit, Lit (CHR '':''), Star False Space, Plus True AnyChar]
              (ds @ '': '' @ msg) = Some [ds, msg]"
    using ds c2 by (subst match_plus_all[where gs="[msg]"]) auto
  have c1: "match_here [Lit (CHR '':''), Plus True Digit, Lit (CHR '':''), Star False Space, Plus True AnyChar]
              ('':'' @ ds @ '': '' @ msg) = Some [ds, msg]"
    using g1 by simp
  have d0: "match_here [Plus False Digit, Lit (CHR '':''), Plus True Digit, Lit (CHR '':''), Star False Space, Plus True AnyChar]
              (ids @ '':'' @ ds @ '': '' @ msg) = Some [ds, msg]"
    using ids c1 by (subst match_plus_all[where gs="[ds, msg]"]) auto
  have sp1: "match_here [Star False Space, Plus False Digit, Lit (CHR '':''), Plus True Digit, Lit (CHR '':''), Star False Space, Plus True AnyChar]
              ('' '' @ ids @ '':'' @ ds @ '': '' @ msg) = Some [ds, msg]"
  proof -
    have "\<not> in_cls Space (hd (ids @ '':'' @ ds @ '': '' @ msg))"
      using ids by (cases ids) auto
    thus ?thesis
      using d0 match_star_all[of "'' ''" Space "ids @ '':'' @ ds @ '': '' @ msg" _ "[ds, msg]" False "[]"]
      by simp
  qed
  show ?thesis using sp1 by (simp add: ERROR_REGEX_def)
qed



lemma search_hit: "match_here p s = Some gs \<Longrightarrow> search p s = Some gs"
  by (cases s) simp_all

lemma digit_not_newline: "in_cls Digit c \<Longrightarrow> c \<noteq> NL"
  by (auto simp: NL_def)

lemma anychar_not_newline: "in_cls AnyChar c \<Longrightarrow> c \<noteq> NL"
  by (simp add: NL_def)

text \<open>What \<^verbatim>\<open>parseErrors\<close> makes of one diagnostic \<^verbatim>\<open>ERROR: <id>:<n>: <message>\<close>:
  the line is \<open>n - 16\<close>, or 1 if that is less.\<close>

lemma parseErrors_one_diagnostic:
  assumes ids: "ids \<noteq> []" "\<forall>c\<in>set ids. in_cls Digit c"
      and ds: "ds \<noteq> []" "\<forall>c\<in>set ds. in_cls Digit c"
      and msg: "msg \<noteq> []" "\<not> in_cls Space (hd msg)" "\<forall>c\<in>set msg. in_cls AnyChar c"
  shows "parseErrors (''ERROR: '' @ ids @ '':'' @ ds @ '': '' @ msg)
           = [\<lparr>line = max 1 (parseInt ds - 16), message = trim msg\<rparr>]"
proof -
  define l where "l = ''ERROR: '' @ ids @ '':'' @ ds @ '': '' @ msg"
  have "NL \<notin> set ids" "NL \<notin> set ds" "NL \<notin> set msg"
    using ids(2) ds(2) msg(3) digit_not_newline anychar_not_newline by blast+
  hence "NL \<notin> set l"
    by (simp add: l_def NL_def)
  hence one: "split_newline l = [l]" by (rule split_newline_single)
  have hit: "search ERROR_REGEX l = Some [ds, msg]"
    unfolding l_def by (rule search_hit) (rule error_regex_match[OF assms])
  have "parseErrors l = [\<lparr>line = max 1 (parseInt ds - 16), message = trim msg\<rparr>]"
    by (simp add: parseErrors_def one parse_line_def hit)
  thus ?thesis by (simp only: l_def)
qed

text \<open>Every line number reported is at least 1.\<close>

lemma parse_line_ge_1:
  "\<forall>e\<in>set errors. 1 \<le> line e \<Longrightarrow> \<forall>e\<in>set (parse_line errors l). 1 \<le> line e"
  by (auto simp: parse_line_def Let_def split: option.splits list.splits)

lemma parseErrors_line_ge_1: "\<forall>e\<in>set (parseErrors errorLog). 1 \<le> line e"
proof -
  have "\<forall>e\<in>set errors. 1 \<le> line e \<Longrightarrow> \<forall>e\<in>set (foldl parse_line errors ls). 1 \<le> line e"
    for errors ls
  proof (induction ls arbitrary: errors)
    case Nil
    then show ?case by simp
  next
    case (Cons l ls)
    have "\<forall>e\<in>set (parse_line errors l). 1 \<le> line e"
      using Cons.prems by (rule parse_line_ge_1)
    hence "\<forall>e\<in>set (foldl parse_line (parse_line errors l) ls). 1 \<le> line e"
      by (rule Cons.IH)
    thus ?case by simp
  qed
  from this[of "[]" "split_newline errorLog"] show ?thesis
    unfolding parseErrors_def by simp
qed

text \<open>A diagnostic on line \<open>header_len + k\<close> of the assembled source is reported at
  line \<open>k + 6\<close>.\<close>

lemma parseErrors_reports_six_too_many:
  assumes ids: "ids \<noteq> []" "\<forall>c\<in>set ids. in_cls Digit c"
      and ds: "ds \<noteq> []" "\<forall>c\<in>set ds. in_cls Digit c"
      and msg: "msg \<noteq> []" "\<not> in_cls Space (hd msg)" "\<forall>c\<in>set msg. in_cls AnyChar c"
      and n: "parseInt ds = int header_len + k" and k: "1 \<le> k"
  shows "map line (parseErrors (''ERROR: '' @ ids @ '':'' @ ds @ '': '' @ msg)) = [k + 6]"
proof -
  have "max 1 (parseInt ds - 16) = k + 6"
    using n k by (simp add: header_len_22)
  thus ?thesis
    by (simp only: parseErrors_one_diagnostic[OF ids ds msg]) simp
qed

lemmas example_defs = ready_def fresh_def playing_def new_renderer_def initGL_def all_ok_def
  fragment_fails_def noon_def box_def on_def compile_def createShader_def createProgram_def
  deleteShader_def deleteProgram_def

lemma compile_ok_program:
  "fst (compile a code s) \<Longrightarrow> \<exists>p. program (snd (compile a code s)) = Some p"
  by (auto simp: compile_def emit_eq Let_def createShader_def createProgram_def
      split: option.splits prod.splits if_splits)

lemma compile_fail_program:
  "\<not> fsCompiled a \<or> \<not> linked a \<Longrightarrow>
     \<not> fst (compile a code s) \<and> program (snd (compile a code s)) = program s"
  by (auto simp: compile_def emit_eq Let_def createShader_def createProgram_def
      split: option.splits prod.splits)

text \<open>Handles are given out in increasing order, so a failed \<^verbatim>\<open>compile\<close> deletes only
  objects it has created itself.\<close>

lemma compile_fail_alive:
  assumes "\<not> fst (compile a code s)" and "gl s = Some g" and "program s = Some p"
    and "p \<in> set (programs g)" and "p < nextHandle g"
  shows "\<exists>g'. gl (snd (compile a code s)) = Some g' \<and> p \<in> set (programs g')"
  using assms
  by (auto simp: compile_def emit_eq Let_def createShader_def createProgram_def
      deleteShader_def deleteProgram_def split: option.splits prod.splits if_splits)

subsection \<open>Diagnostic line mapping\<close>

text \<open>
  Claim C1. A compiler diagnostic \<^verbatim>\<open>ERROR: <id>:<n>: <message>\<close> with
  \<open>n = header_len + k\<close>, \<open>k \<ge> 1\<close>, is to be reported at line \<open>k\<close> of the user's code,
  \<open>header_len\<close> being the number of lines of the preamble.

  The code does not do this. The preamble of \<^verbatim>\<open>createFragmentShader\<close> has 22 lines, so
  the first line of the user's code is line 23 of the assembled source, while
  \<^verbatim>\<open>parseErrors\<close> subtracts the literal 16: a diagnostic on line 23 is reported at line 7
  instead of line 1. In general line \<open>header_len + k\<close> is reported as \<open>k + 6\<close>
  (\<open>parseErrors_reports_six_too_many\<close>). The other half of the claim holds: no reported
  line is below 1 (\<open>parseErrors_line_ge_1\<close>).
\<close>

theorem parseErrors_offset_mismatch:
  "header_len = 22
   \<and> line_of (createFragmentShader ''x'') (length preamble) = 23
   \<and> parseErrors ''ERROR: 0:23: undeclared identifier''
       = [\<lparr>line = 7, message = ''undeclared identifier''\<rparr>]"
proof -
  have "line_of (createFragmentShader ''x'') (length preamble + 0) = header_len + line_of ''x'' 0"
    by (rule line_of_user_code) simp
  hence "line_of (createFragmentShader ''x'') (length preamble) = 23"
    by (simp add: header_len_22 line_of_def)
  moreover have "parseErrors ''ERROR: 0:23: undeclared identifier''
       = [\<lparr>line = 7, message = ''undeclared identifier''\<rparr>]"
    by (simp add: parseErrors_def parse_line_def ERROR_REGEX_def parseInt_def trim_def NL_def)
  ultimately show ?thesis by (simp add: header_len_22)
qed

subsection \<open>Compile failure\<close>

text \<open>
  Claim C2. When the fragment stage does not compile or the program does not link,
  \<^verbatim>\<open>compile\<close> returns \<^verbatim>\<open>false\<close> and leaves the field \<^verbatim>\<open>program\<close> as it was; so after
  a successful \<^verbatim>\<open>compile\<close> followed by a failing one the program linked by the first is
  still the active one. Its WebGL object is not deleted either.
\<close>

theorem compile_failure_keeps_program:
  assumes "\<not> fsCompiled a \<or> \<not> linked a"
  shows "\<not> fst (compile a code s)
    \<and> program (snd (compile a code s)) = program s
    \<and> (fst (compile a0 code0 s0) \<longrightarrow>
         (\<exists>p. program (snd (compile a0 code0 s0)) = Some p \<and>
              program (snd (compile a code (snd (compile a0 code0 s0)))) = Some p))
    \<and> (gl s = Some g \<and> program s = Some q \<and> q \<in> set (programs g) \<and> q < nextHandle g \<longrightarrow>
         (\<exists>g'. gl (snd (compile a code s)) = Some g' \<and> q \<in> set (programs g')))"
proof -
  have here: "\<not> fst (compile a code s) \<and> program (snd (compile a code s)) = program s"
    using assms by (rule compile_fail_program)
  have after: "program (snd (compile a code (snd (compile a0 code0 s0))))
                 = program (snd (compile a0 code0 s0))"
    using compile_fail_program[OF assms, of code "snd (compile a0 code0 s0)"] by simp
  have alive: "\<exists>g'. gl (snd (compile a code s)) = Some g' \<and> q \<in> set (programs g')"
    if "gl s = Some g" "program s = Some q" "q \<in> set (programs g)" "q < nextHandle g"
    using here that by (blast intro: compile_fail_alive)
  show ?thesis
    using here after alive compile_ok_program[of a0 code0 s0] by auto
qed

theorem compile_failure_keeps_program_witness:
  "\<not> fsCompiled fragment_fails
   \<and> fst (compile all_ok ''void mainImage(out vec4 c, in vec2 p) { c = vec4(1.0); }''
            (on 7 fresh))
   \<and> \<not> fst (compile fragment_fails ''void mainImage() {'' ready)
   \<and> program (snd (compile fragment_fails ''void mainImage() {'' ready)) = Some 4"
  using compile_failure_keeps_program[of fragment_fails "''void mainImage() {''" ready all_ok
      "''void mainImage(out vec4 c, in vec2 p) { c = vec4(1.0); }''" "on 7 fresh"]
  by (simp add: example_defs emit_eq)

subsection \<open>Pointer tracking\<close>

text \<open>
  Claim C3. A press at surface position \<open>(x, y)\<close> sets the current and the click position
  to \<open>(x, y)\<close>; the moves that follow while the button is down change the current position
  only (it is that of the last move); the release turns each click component into the
  negated absolute value of what it was and leaves the current position alone (the last
  conjunct: in any state at all). A press point has coordinates that are not negative, so
  the negated absolute value is the value with its sign flipped.
\<close>

theorem pointer_click_encoding:
  assumes press: "surface_position e rect = (x, y)"
    and cur: "cur = (if moves = [] then (x, y)
                     else surface_position (fst (last moves)) (snd (last moves)))"
  shows "mouse (mousedown e rect s) = (x, y, x, y)
       \<and> mouse (drag moves (mousedown e rect s)) = (fst cur, snd cur, x, y)
       \<and> mouse (mouseup (drag moves (mousedown e rect s)))
           = (fst cur, snd cur, - \<bar>x\<bar>, - \<bar>y\<bar>)
       \<and> (mouse s' = (m0, m1, m2, m3) \<longrightarrow>
            mouse (mouseup s') = (m0, m1, - \<bar>m2\<bar>, - \<bar>m3\<bar>))"
proof -
  have down: "isMouseDown (mousedown e rect s)" "mouse (mousedown e rect s) = (x, y, x, y)"
    using press by (simp_all add: mousedown_def surface_position_def Let_def)
  have dragged: "mouse (drag moves (mousedown e rect s)) = (fst cur, snd cur, x, y)"
    using drag_pressed[OF down, of moves] by (simp add: cur)
  have up: "mouse (mouseup (drag moves (mousedown e rect s)))
              = (fst cur, snd cur, - \<bar>x\<bar>, - \<bar>y\<bar>)"
    by (simp add: mouseup_def dragged Let_def)
  have release: "mouse (mouseup s') = (m0, m1, - \<bar>m2\<bar>, - \<bar>m3\<bar>)"
    if "mouse s' = (m0, m1, m2, m3)"
    using that by (simp add: mouseup_def Let_def)
  show ?thesis using down dragged up release by simp
qed

text \<open>Press at (10, 20), drag to (15, 25), release: the click position ends as (-10, -20).\<close>

theorem pointer_click_encoding_witness:
  "mouse (mousedown \<lparr>clientX = 10, clientY = 130\<rparr> box fresh) = (10, 20, 10, 20)
   \<and> mouse (drag [(\<lparr>clientX = 15, clientY = 125\<rparr>, box)]
        (mousedown \<lparr>clientX = 10, clientY = 130\<rparr> box fresh)) = (15, 25, 10, 20)
   \<and> mouse (mouseup (drag [(\<lparr>clientX = 15, clientY = 125\<rparr>, box)]
        (mousedown \<lparr>clientX = 10, clientY = 130\<rparr> box fresh))) = (15, 25, - 10, - 20)"
  using pointer_click_encoding[of "\<lparr>clientX = 10, clientY = 130\<rparr>" box 10 20
      "(15, 25)" "[(\<lparr>clientX = 15, clientY = 125\<rparr>, box)]" fresh]
  by (simp add: surface_position_def box_def)

subsection \<open>The timeline\<close>

text \<open>
  Claim C4. A renderer that is Playing and has run for an elapsed time \<open>\<Delta>\<close> is paused at
  \<open>t_pause\<close> and resumed by \<^verbatim>\<open>play()\<close> at \<open>t_resume\<close>; the elapsed time reported at
  the instant of resuming is to be equal to \<open>\<Delta>\<close>.

  As stated this fails. The code computes \<^verbatim>\<open>pausedTime = now - startTime\<close> and then
  \<^verbatim>\<open>startTime = now - pausedTime\<close> in doubles, and \<open>t - (t - p)\<close> rounded twice is not
  \<open>p\<close> in general. Started at 0.1, paused at 0.3 and resumed at 1000.7 (the doubles
  nearest to these), the renderer reports 0.00019999999999999998 seconds at the pause and
  0.00020000000000004546 seconds at the resume.
\<close>

theorem pause_resume_exact_counterexample:
  "time (getState_rnd fl (fl (3 / 10)) playing_fl) = 1844674407370955 / 9223372036854775808
   \<and> time (getState_rnd fl (fl (10007 / 10))
        (play_rnd fl (fl (10007 / 10)) (fl (10007 / 10)) (fl (10007 / 10)) noon
           (pause_rnd fl (fl (3 / 10)) playing_fl)))
       = 3689348814742749 / 18446744073709551616
   \<and> time (getState_rnd fl (fl (10007 / 10))
        (play_rnd fl (fl (10007 / 10)) (fl (10007 / 10)) (fl (10007 / 10)) noon
           (pause_rnd fl (fl (3 / 10)) playing_fl)))
       \<noteq> time (getState_rnd fl (fl (3 / 10)) playing_fl)"
proof -
  have playing: "isPlaying playing_fl" and start: "startTime playing_fl = fl (1 / 10)"
    by (simp_all add: playing_fl_def play_rnd_fields ready_def compile_def fresh_def
          new_renderer_def on_def emit_eq all_ok_def createShader_def createProgram_def Let_def)
  show ?thesis
    unfolding elapsed_at_resume elapsed_at_pause[OF playing] start
    by (simp add: fl_def expo.simps round_even_def Let_def power_int_def power_one_over)
qed

text \<open>
  Claim C4, amended. The elapsed time reported at the instant of resuming is equal to
  \<open>\<Delta>\<close> up to the rounding of the arithmetic. For every rounding of relative error at most
  \<open>\<epsilon>\<close> (for doubles \<open>1 / 2 ^ 53\<close>, by \<open>fl_error\<close>), with \<open>p\<close> the paused baseline in
  milliseconds, the two reported times differ by at most \<open>4 * \<epsilon> * (p + \<bar>t_resume - p\<bar>) / 1000\<close>
  seconds, which is \<open>4 * \<epsilon> * t_resume / 1000\<close> when \<open>p \<le> t_resume\<close>; with exact arithmetic
  (\<open>\<epsilon> = 0\<close>) they are equal. The length of the wait enters only through the size of the
  clock reading that is rounded. The hypothesis \<open>startTime s \<le> t_pause\<close> says that the
  clock has not run backwards (see \<open>clock_ok_step\<close>).
\<close>

theorem pause_resume_within_rounding:
  fixes rnd :: "real \<Rightarrow> real"
  assumes rnd: "\<And>x. \<bar>rnd x - x\<bar> \<le> \<epsilon> * \<bar>x\<bar>" and eps: "\<epsilon> \<le> 1"
    and playing: "isPlaying s" and clock: "startTime s \<le> t_pause"
    and p: "p = pausedTime (pause_rnd rnd t_pause s)"
  shows "\<bar>time (getState_rnd rnd t_resume (play_rnd rnd t_resume t2 t3 date (pause_rnd rnd t_pause s)))
           - time (getState_rnd rnd t_pause s)\<bar> \<le> 4 * \<epsilon> * (p + \<bar>t_resume - p\<bar>) / 1000
       \<and> (p \<le> t_resume \<longrightarrow>
            \<bar>time (getState_rnd rnd t_resume
                 (play_rnd rnd t_resume t2 t3 date (pause_rnd rnd t_pause s)))
              - time (getState_rnd rnd t_pause s)\<bar> \<le> 4 * \<epsilon> * t_resume / 1000)
       \<and> isPlaying (play_rnd rnd t_resume t2 t3 date (pause_rnd rnd t_pause s))"
proof -
  have eps0: "0 \<le> \<epsilon>" using rnd[of 1] by simp
  have p_eq: "p = rnd (t_pause - startTime s)" by (simp add: p pause_rnd_fields)
  have "\<bar>p - (t_pause - startTime s)\<bar> \<le> \<epsilon> * \<bar>t_pause - startTime s\<bar>"
    unfolding p_eq by (rule rnd)
  moreover have "\<epsilon> * \<bar>t_pause - startTime s\<bar> \<le> \<bar>t_pause - startTime s\<bar>"
    using eps eps0 by (intro mult_left_le_one_le) simp_all
  ultimately have p0: "0 \<le> p" using clock by linarith
  have rnd0: "rnd 0 = 0" using rnd[of 0] by simp
  let ?after = "time (getState_rnd rnd t_resume
                  (play_rnd rnd t_resume t2 t3 date (pause_rnd rnd t_pause s)))"
  let ?before = "time (getState_rnd rnd t_pause s)"
  have before: "?before = rnd (p / 1000)"
    by (simp add: elapsed_at_pause[OF playing] p_eq)
  have bound: "\<bar>?after - ?before\<bar> \<le> 4 * \<epsilon> * (p + \<bar>t_resume - p\<bar>) / 1000"
  proof (cases "0 < p")
    case True
    hence "?after = rnd (rnd (t_resume - rnd (t_resume - p)) / 1000)"
      by (simp add: elapsed_at_resume p_eq)
    thus ?thesis using rounding_chain[OF rnd eps p0, of t_resume] by (simp add: before)
  next
    case False
    hence z: "p = 0" using p0 by simp
    hence "?after = 0" using rnd0 by (simp add: elapsed_at_resume p_eq[symmetric])
    moreover have "?before = 0" using rnd0 by (simp add: before z)
    ultimately show ?thesis using eps0 by (simp add: z)
  qed
  have resumed: "isPlaying (play_rnd rnd t_resume t2 t3 date (pause_rnd rnd t_pause s))"
    by (simp add: play_rnd_fields pause_rnd_fields)
  show ?thesis using bound resumed p0 by auto
qed

text \<open>In doubles, for the run of the counterexample: the difference is within
  \<open>4 / 2 ^ 53\<close> of the clock reading at the resume, in seconds.\<close>

theorem pause_resume_within_rounding_witness:
  "isPlaying playing_fl \<and> startTime playing_fl \<le> fl (3 / 10)
   \<and> pausedTime (pause_rnd fl (fl (3 / 10)) playing_fl) = 7205759403792793 / 36028797018963968
   \<and> \<bar>time (getState_rnd fl (fl (10007 / 10))
         (play_rnd fl (fl (10007 / 10)) (fl (10007 / 10)) (fl (10007 / 10)) noon
            (pause_rnd fl (fl (3 / 10)) playing_fl)))
       - time (getState_rnd fl (fl (3 / 10)) playing_fl)\<bar>
       \<le> 4 * (1 / 2 ^ 53) * fl (10007 / 10) / 1000"
proof -
  have playing: "isPlaying playing_fl" and start: "startTime playing_fl = fl (1 / 10)"
    by (simp_all add: playing_fl_def play_rnd_fields ready_def compile_def fresh_def
          new_renderer_def on_def emit_eq all_ok_def createShader_def createProgram_def Let_def)
  have clock: "startTime playing_fl \<le> fl (3 / 10)"
    unfolding start by (simp add: fl_def expo.simps round_even_def Let_def power_int_def power_one_over)
  have p: "pausedTime (pause_rnd fl (fl (3 / 10)) playing_fl) = 7205759403792793 / 36028797018963968"
    unfolding pause_rnd_fields start
    by (simp add: fl_def expo.simps round_even_def Let_def power_int_def power_one_over)
  have le: "pausedTime (pause_rnd fl (fl (3 / 10)) playing_fl) \<le> fl (10007 / 10)"
    unfolding p by (simp add: fl_def expo.simps round_even_def Let_def power_int_def power_one_over)
  from pause_resume_within_rounding[of fl "1 / 2 ^ 53" playing_fl "fl (3 / 10)" _ "fl (10007 / 10)"
      "fl (10007 / 10)" "fl (10007 / 10)" noon, OF fl_error _ playing clock refl] le
  show ?thesis using playing clock p by simp
qed

text \<open>
  Claim C5. \<^verbatim>\<open>pause()\<close> on a renderer that is already Paused is to change nothing.

  The code does not do this: \<^verbatim>\<open>pause\<close> has no guard like the one of \<^verbatim>\<open>play\<close> and
  sets \<^verbatim>\<open>pausedTime\<close> to \<^verbatim>\<open>performance.now() - startTime\<close> whatever the state. On a
  new renderer, \<^verbatim>\<open>pause()\<close> at time 5000 makes the paused baseline 5000, and a
  \<^verbatim>\<open>play()\<close> at 6000 then starts at an elapsed time of 5 seconds. On a renderer paused at
  2 seconds, a second \<^verbatim>\<open>pause()\<close> six seconds later makes it 8 seconds.
\<close>

theorem pause_while_paused_moves_baseline:
  "\<not> isPlaying fresh \<and> pausedTime fresh = 0
   \<and> pausedTime (pause 5000 fresh) = 5000
   \<and> pause 5000 fresh \<noteq> fresh
   \<and> time (getState 6000 (play 6000 6000 6000 noon (pause 5000 fresh))) = 5
   \<and> \<not> isPlaying (pause 3000 playing)
   \<and> time (getState 9000 (pause 3000 playing)) = 2
   \<and> time (getState 9000 (pause 9000 (pause 3000 playing))) = 8"
  by (simp add: example_defs clock_defs)

text \<open>
  Claim C6. \<^verbatim>\<open>restart()\<close> is to leave elapsed time and frame count at zero in either
  state, and to render exactly one frame when Paused.

  As stated this fails: Paused with a program, the frame that \<^verbatim>\<open>restart()\<close> renders is
  counted, so the frame count is 1 on return; Paused without a program, the guard of
  \<^verbatim>\<open>renderFrame\<close> renders nothing.
\<close>

theorem restart_postcondition_counterexample:
  "\<not> isPlaying ready \<and> frameCount (restart 1000 1000 1000 noon ready) \<noteq> 0
   \<and> \<not> isPlaying fresh \<and> drawCalls (restart 1000 1000 1000 noon fresh) = drawCalls fresh"
  by (simp add: example_defs clock_defs)

text \<open>
  Claim C6, amended. \<^verbatim>\<open>restart()\<close> sets the paused baseline to zero and the logical start
  to the clock, so the elapsed time is zero in either state. Playing: the frame count is
  zero on return and no frame is rendered by the call. Paused with a context and a program:
  exactly one frame is rendered, with frame uniform 0 and time uniform
  \<open>(t3 - t1) / 1000\<close> (zero when the clock reads the same in \<^verbatim>\<open>restart\<close> and in
  \<^verbatim>\<open>renderFrame\<close>), and the frame count is 1 on return. Paused without a program: nothing
  is rendered and the frame count is zero.
\<close>

theorem restart_postcondition:
  "pausedTime (restart t1 t2 t3 date s) = 0
   \<and> startTime (restart t1 t2 t3 date s) = t1
   \<and> isPlaying (restart t1 t2 t3 date s) = isPlaying s
   \<and> time (getState t1 (restart t1 t2 t3 date s)) = 0
   \<and> (isPlaying s \<longrightarrow>
        frameCount (restart t1 t2 t3 date s) = 0 \<and>
        drawCalls (restart t1 t2 t3 date s) = drawCalls s)
   \<and> (\<not> isPlaying s \<and> gl s \<noteq> None \<and> program s \<noteq> None \<longrightarrow>
        frameCount (restart t1 t2 t3 date s) = 1 \<and>
        (\<exists>d. drawCalls (restart t1 t2 t3 date s) = drawCalls s @ [d] \<and>
             iFrame d = 0 \<and> iTime d = (t3 - t1) / 1000))
   \<and> (\<not> isPlaying s \<and> (gl s = None \<or> program s = None) \<longrightarrow>
        frameCount (restart t1 t2 t3 date s) = 0 \<and>
        drawCalls (restart t1 t2 t3 date s) = drawCalls s)"
  by (auto simp: clock_defs split: option.splits prod.splits)

theorem restart_postcondition_witness:
  "isPlaying playing \<and> frameCount (restart 5000 5000 5000 noon playing) = 0
   \<and> drawCalls (restart 5000 5000 5000 noon playing) = drawCalls playing
   \<and> \<not> isPlaying ready \<and> gl ready \<noteq> None \<and> program ready \<noteq> None
   \<and> frameCount (restart 5000 5000 5000 noon ready) = 1
   \<and> length (drawCalls (restart 5000 5000 5000 noon ready)) = 1
   \<and> \<not> isPlaying fresh \<and> program fresh = None
   \<and> frameCount (restart 5000 5000 5000 noon fresh) = 0
   \<and> drawCalls (restart 5000 5000 5000 noon fresh) = []"
  using restart_postcondition[of 5000 5000 5000 noon playing]
    restart_postcondition[of 5000 5000 5000 noon ready]
    restart_postcondition[of 5000 5000 5000 noon fresh]
  by (simp add: example_defs clock_defs)

text \<open>
  Claim C7. Over \<^verbatim>\<open>play()\<close>, \<^verbatim>\<open>pause()\<close>, \<^verbatim>\<open>restart()\<close> and frame callbacks the
  frame count is to grow only while Playing, by one for each rendered frame.

  As stated this fails: \<^verbatim>\<open>restart()\<close> on a Paused renderer that has a program takes the
  frame count from 0 to 1 and the renderer is Paused before and after.
\<close>

theorem timeline_invariant_counterexample:
  "\<not> isPlaying ready \<and> \<not> isPlaying (step (Restart 1000 1000 1000 noon) ready)
   \<and> frameCount ready < frameCount (step (Restart 1000 1000 1000 noon) ready)"
  by (simp add: example_defs clock_defs)

text \<open>
  Claim C7, amended. Every step renders no frame or one. A step other than
  \<^verbatim>\<open>restart()\<close> adds to the frame count exactly the number of frames it renders, and if it
  renders one the renderer is Playing; so \<^verbatim>\<open>pause()\<close> and a callback on a Paused renderer
  leave the count alone. \<^verbatim>\<open>restart()\<close> sets the count to the number of frames it renders,
  which is one exactly when the renderer is Paused and has a context and a program.
\<close>

theorem timeline_frameCount_step:
  "(rendered s (step a s) = 0 \<or> rendered s (step a s) = 1)
   \<and> (\<not> is_restart a \<longrightarrow>
        frameCount (step a s) = frameCount s + rendered s (step a s) \<and>
        (rendered s (step a s) = 1 \<longrightarrow> isPlaying (step a s)))
   \<and> (is_restart a \<longrightarrow>
        frameCount (step a s) = rendered s (step a s) \<and>
        (rendered s (step a s) = 1 \<longleftrightarrow>
           \<not> isPlaying s \<and> gl s \<noteq> None \<and> program s \<noteq> None))"
  by (cases a) (auto simp: clock_defs rendered_def split: option.splits prod.splits)

theorem timeline_frameCount_step_witness:
  "\<not> is_restart (Play 1000 1000 1000 noon)
   \<and> rendered ready (step (Play 1000 1000 1000 noon) ready) = 1
   \<and> frameCount (step (Play 1000 1000 1000 noon) ready) = 1
   \<and> isPlaying (step (Play 1000 1000 1000 noon) ready)
   \<and> frameCount (step (Tick 0 1016 noon) playing) = 2
   \<and> frameCount (step (Pause 2000) playing) = 1
   \<and> frameCount (step (Tick 0 3000 noon) (step (Pause 2000) playing)) = 1
   \<and> is_restart (Restart 5000 5000 5000 noon)
   \<and> frameCount (step (Restart 5000 5000 5000 noon) ready) = 1"
  using timeline_frameCount_step[of ready "Play 1000 1000 1000 noon"]
    timeline_frameCount_step[of playing "Tick 0 1016 noon"]
    timeline_frameCount_step[of playing "Pause 2000"]
    timeline_frameCount_step[of "step (Pause 2000) playing" "Tick 0 3000 noon"]
    timeline_frameCount_step[of ready "Restart 5000 5000 5000 noon"]
  by (simp add: example_defs clock_defs rendered_def)

subsection \<open>Pointer leaving the surface\<close>

text \<open>
  Claim C8. When the pointer leaves the surface, only the pressed flag is cleared: the four
  values of \<^verbatim>\<open>mouse\<close> and every other field stay as they are. The release handler, on a
  click position with a positive component, does change \<^verbatim>\<open>mouse\<close>.
\<close>

theorem mouseleave_clears_only_flag:
  "mouse (mouseleave s) = mouse s
   \<and> \<not> isMouseDown (mouseleave s)
   \<and> mouseleave s = s\<lparr>isMouseDown := False\<rparr>
   \<and> (mouse s = (m0, m1, m2, m3) \<and> (0 < m2 \<or> 0 < m3) \<longrightarrow>
        mouse (mouseup s) \<noteq> mouse (mouseleave s))"
  by (auto simp: mouseleave_def mouseup_def Let_def)

theorem mouseleave_clears_only_flag_witness:
  "isMouseDown (mousedown \<lparr>clientX = 10, clientY = 130\<rparr> box fresh)
   \<and> mouse (mouseleave (mousedown \<lparr>clientX = 10, clientY = 130\<rparr> box fresh))
       = (10, 20, 10, 20)
   \<and> \<not> isMouseDown (mouseleave (mousedown \<lparr>clientX = 10, clientY = 130\<rparr> box fresh))
   \<and> mouse (mouseup (mousedown \<lparr>clientX = 10, clientY = 130\<rparr> box fresh))
       = (10, 20, - 10, - 20)"
  using mouseleave_clears_only_flag[of "mousedown \<lparr>clientX = 10, clientY = 130\<rparr> box fresh"
      10 20 10 20]
  by (simp add: mousedown_def mouseup_def mouseleave_def box_def Let_def)

subsection \<open>Event Channel\<close>

text \<open>
  Claim C9. After the listeners \<open>ls\<close> have been registered with \<^verbatim>\<open>on\<close>, one after the
  other, a broadcast calls the listeners registered before and then \<open>ls\<close>, each
  registration once, in the order of registration, and calls nothing else.
\<close>

theorem emit_registration_order:
  "delivered (emit ev (foldl (\<lambda>st l. on l st) s ls))
     = delivered s @ map (\<lambda>l. (l, ev)) (eventListeners s @ ls)"
proof -
  have reg: "eventListeners (foldl (\<lambda>st l. on l st) s' ls) = eventListeners s' @ ls
     \<and> delivered (foldl (\<lambda>st l. on l st) s' ls) = delivered s'" for s'
    by (induction ls arbitrary: s') (simp_all add: on_def)
  show ?thesis by (simp add: emit_eq reg)
qed

theorem emit_registration_order_witness:
  "delivered (emit CompileSuccess (on 3 (on 1 (on 2 fresh))))
     = [(2, CompileSuccess), (1, CompileSuccess), (3, CompileSuccess)]"
  using emit_registration_order[of CompileSuccess fresh "[2, 1, 3]"]
  by (simp add: fresh_def new_renderer_def)

subsection \<open>The polled state\<close>

text \<open>
  Claim C10. \<^verbatim>\<open>getState()\<close> reports an \<^verbatim>\<open>fps\<close> of 0 in every state and at every time.
  The frame rate that \<^verbatim>\<open>renderFrame\<close> computes (the reciprocal of the time since the
  frame before, 60 when that time is not positive) reaches the listeners in the frame
  event.
\<close>

theorem getState_fps_zero:
  "fps (getState t s) = 0
   \<and> (gl s \<noteq> None \<and> program s \<noteq> None \<longrightarrow>
        delivered (renderFrame now date s) = delivered s @
          map (\<lambda>l. (l, Frame \<lparr>state_isPlaying = isPlaying s,
                     time = (now - startTime s) / 1000,
                     frame = frameCount s + 1,
                     fps = (if (now - lastFrameTime s) / 1000 > 0
                            then 1 / ((now - lastFrameTime s) / 1000) else 60)\<rparr>))
              (eventListeners s))"
  by (auto simp: getState_def renderFrame_def emit_eq Let_def)

theorem getState_fps_zero_witness:
  "gl playing \<noteq> None \<and> program playing \<noteq> None
   \<and> fps (getState 1016 (frame_callback 0 1016 noon playing)) = 0
   \<and> delivered (renderFrame 1016 noon playing) = delivered playing @
       [(7, Frame \<lparr>state_isPlaying = True, time = 2 / 125, frame = 2, fps = 125 / 2\<rparr>)]"
  using getState_fps_zero[of 1016 "frame_callback 0 1016 noon playing"]
    getState_fps_zero[of 0 playing 1016 noon]
  by (simp add: example_defs clock_defs)

end
